theory Spec2Isabelle
  imports Complex_Main
begin

section \<open>Data model\<close>

text \<open>
  The script \<^verbatim>\<open>Scripts/zst_to_csv_with_score_filtering_json.py\<close> reads a
  zstd-compressed file in chunks, reassembles newline-terminated lines, parses each line
  as JSON, filters by subreddit, score and body length, and writes one JSON object per
  accepted record.

  Python \<^verbatim>\<open>bytes\<close> are lists of 8-bit characters; Python \<^verbatim>\<open>str\<close> values are lists
  of Unicode code points, so that \<^verbatim>\<open>len\<close> counts code points.
\<close>

type_synonym bytes = "char list"
type_synonym pystr = "nat list"

definition ustr :: "string \<Rightarrow> pystr" where
  "ustr s = map of_char s"

text \<open>Floats as Python compares them with integers: by their exact value.\<close>

datatype pyfloat = Finite rat | PosInf | NegInf | NaN

text \<open>What \<^verbatim>\<open>json.loads\<close> can return. A dict is an association list read with \<open>map_of\<close>.\<close>

datatype json =
    JNull
  | JBool bool
  | JInt int
  | JFloat pyfloat
  | JStr pystr
  | JList "json list"
  | JDict "(pystr \<times> json) list"

datatype py_error =
    JSONDecodeError
  | UnicodeDecodeError
  | RecursionError
  | ValueError
  | AttributeError
  | TypeError
  | ZstdError
  | OSError

text \<open>The dict \<^verbatim>\<open>result\<close> of the script has the single key \<^verbatim>\<open>'body'\<close>.\<close>

record result =
  body :: pystr

text \<open>One call of \<^verbatim>\<open>stream_reader.read(2**20)\<close>: a chunk of decompressed bytes (empty at
  end of stream), or the exception of a corrupt stream.\<close>

datatype read_result = Chunk bytes | ReadFails

text \<open>
  The library functions the script calls and whose code is not part of the repository
  are parameters of the model: \<^verbatim>\<open>json.loads\<close> on a line, \<^verbatim>\<open>json.dumps\<close> on a result
  (as the bytes the UTF-8 text file receives), and the sequence of results that
  successive \<^verbatim>\<open>read\<close> calls of the zstd stream reader give on a file's content (after
  the sequence, \<^verbatim>\<open>read\<close> returns \<^verbatim>\<open>b''\<close>).
\<close>

record library =
  loads :: "bytes \<Rightarrow> py_error + json"
  dumps :: "result \<Rightarrow> bytes"
  stream_reads :: "bytes \<Rightarrow> read_result list"

text \<open>
  The file system and what was printed: the regular files by path, the paths that
  \<^verbatim>\<open>open(path, 'rb')\<close> refuses (no permission to read) and the paths that
  \<^verbatim>\<open>open(path, 'w')\<close> refuses (a directory, a missing parent directory, no permission
  to write).
\<close>

record world =
  files :: "string \<rightharpoonup> bytes"
  read_denied :: "string set"
  write_denied :: "string set"
  stdout :: "string list"

section \<open>Library operations with a fixed meaning\<close>

text \<open>\<^verbatim>\<open>bytes.split(b'\n')\<close>: the segments between newline bytes; never an empty list.\<close>

fun split_nl :: "bytes \<Rightarrow> bytes list" where
  "split_nl [] = [[]]"
| "split_nl (c # cs) =
     (if c = CHR 0x0A then [] # split_nl cs
      else (case split_nl cs of [] \<Rightarrow> [[c]] | l # ls \<Rightarrow> (c # l) # ls))"

text \<open>\<^verbatim>\<open>bytes.strip()\<close> removes ASCII whitespace at both ends.\<close>

definition bytes_isspace :: "char \<Rightarrow> bool" where
  "bytes_isspace c =
     (c = CHR 0x09 \<or> c = CHR 0x0A \<or> c = CHR 0x0B \<or> c = CHR 0x0C \<or> c = CHR 0x0D \<or> c = CHR 0x20)"

definition bytes_strip :: "bytes \<Rightarrow> bytes" where
  "bytes_strip b = rev (dropWhile bytes_isspace (rev (dropWhile bytes_isspace b)))"

text \<open>\<^verbatim>\<open>str.strip()\<close> removes the code points for which \<^verbatim>\<open>str.isspace\<close> holds.\<close>

definition str_isspace :: "nat \<Rightarrow> bool" where
  "str_isspace c =
     ((0x09 \<le> c \<and> c \<le> 0x0D) \<or> (0x1C \<le> c \<and> c \<le> 0x20) \<or> c = 0x85 \<or> c = 0xA0 \<or>
      c = 0x1680 \<or> (0x2000 \<le> c \<and> c \<le> 0x200A) \<or> c = 0x2028 \<or> c = 0x2029 \<or>
      c = 0x202F \<or> c = 0x205F \<or> c = 0x3000)"

definition str_strip :: "pystr \<Rightarrow> pystr" where
  "str_strip s = rev (dropWhile str_isspace (rev (dropWhile str_isspace s)))"

text \<open>\<^verbatim>\<open>post.get(key, default)\<close> on a dict.\<close>

definition dict_get :: "(pystr \<times> json) list \<Rightarrow> pystr \<Rightarrow> json \<Rightarrow> json" where
  "dict_get d k dflt = (case map_of d k of None \<Rightarrow> dflt | Some v \<Rightarrow> v)"

text \<open>\<^verbatim>\<open>key in post\<close>.\<close>

definition dict_has :: "(pystr \<times> json) list \<Rightarrow> pystr \<Rightarrow> bool" where
  "dict_has d k = (map_of d k \<noteq> None)"

text \<open>\<^verbatim>\<open>x <= n\<close> for an integer \<open>n\<close>: defined on numbers (a bool is an int), a
  \<^verbatim>\<open>TypeError\<close> on everything else.\<close>

fun float_le_int :: "pyfloat \<Rightarrow> int \<Rightarrow> bool" where
  "float_le_int (Finite r) n = (r \<le> of_int n)"
| "float_le_int PosInf n = False"
| "float_le_int NegInf n = True"
| "float_le_int NaN n = False"

fun py_le_int :: "json \<Rightarrow> int \<Rightarrow> py_error + bool" where
  "py_le_int (JInt i) n = Inr (i \<le> n)"
| "py_le_int (JBool b) n = Inr ((if b then 1 else 0) \<le> n)"
| "py_le_int (JFloat f) n = Inr (float_le_int f n)"
| "py_le_int JNull n = Inl TypeError"
| "py_le_int (JStr s) n = Inl TypeError"
| "py_le_int (JList l) n = Inl TypeError"
| "py_le_int (JDict d) n = Inl TypeError"

text \<open>\<^verbatim>\<open>x.strip()\<close>: only a string has the method.\<close>

fun py_strip :: "json \<Rightarrow> py_error + pystr" where
  "py_strip (JStr s) = Inr (str_strip s)"
| "py_strip JNull = Inl AttributeError"
| "py_strip (JBool b) = Inl AttributeError"
| "py_strip (JInt i) = Inl AttributeError"
| "py_strip (JFloat f) = Inl AttributeError"
| "py_strip (JList l) = Inl AttributeError"
| "py_strip (JDict d) = Inl AttributeError"

section \<open>The script\<close>

text \<open>
  The statements of the \<^verbatim>\<open>try\<close> block after \<^verbatim>\<open>post = json.loads(line)\<close>: the three
  \<^verbatim>\<open>continue\<close> gates, then the construction of \<^verbatim>\<open>result\<close>. \<open>Inr None\<close> is
  \<^verbatim>\<open>continue\<close>, \<open>Inr (Some r)\<close> is the record handed to \<^verbatim>\<open>out_file.write\<close>, \<open>Inl e\<close> is a
  raised exception. Every method call is on \<^verbatim>\<open>post\<close>, so a value that is not a dict
  raises \<^verbatim>\<open>AttributeError\<close> at the first \<^verbatim>\<open>post.get\<close>.
\<close>

definition filter_post :: "pystr \<Rightarrow> int \<Rightarrow> json \<Rightarrow> py_error + result option" where
  "filter_post subreddit_filter score_threshold post =
     (case post of
        JDict d \<Rightarrow>
          if dict_get d (ustr ''subreddit'') JNull \<noteq> JStr subreddit_filter then Inr None
          else
            (case py_le_int (dict_get d (ustr ''score'') (JInt 0)) score_threshold of
               Inl e \<Rightarrow> Inl e
             | Inr True \<Rightarrow> Inr None
             | Inr False \<Rightarrow>
                 (case py_strip (dict_get d (ustr ''body'') (JStr [])) of
                    Inl e \<Rightarrow> Inl e
                  | Inr b \<Rightarrow>
                      if length b < 120 then Inr None
                      else if dict_has d (ustr ''title'') then
                        (case py_strip (dict_get d (ustr ''title'') (JStr [])) of
                           Inl e \<Rightarrow> Inl e
                         | Inr title \<Rightarrow>
                             (case py_strip (dict_get d (ustr ''selftext'') (JStr [])) of
                                Inl e \<Rightarrow> Inl e
                              | Inr selftext \<Rightarrow>
                                  Inr (Some \<lparr>body = title @ ustr '' '' @ selftext\<rparr>)))
                      else
                        (case py_strip (dict_get d (ustr ''body'') (JStr [])) of
                           Inl e \<Rightarrow> Inl e
                         | Inr b' \<Rightarrow> Inr (Some \<lparr>body = b'\<rparr>))))
      | _ \<Rightarrow> Inl AttributeError)"

text \<open>
  The body of \<^verbatim>\<open>for line in lines\<close>: blank lines are skipped before parsing; the
  \<^verbatim>\<open>try\<close> block is left by \<^verbatim>\<open>continue\<close> on \<^verbatim>\<open>json.JSONDecodeError\<close> and on no other
  exception.
\<close>

definition process_line :: "library \<Rightarrow> pystr \<Rightarrow> int \<Rightarrow> bytes \<Rightarrow> py_error + result option" where
  "process_line L subreddit_filter score_threshold line =
     (if bytes_strip line = [] then Inr None
      else
        (case (case loads L line of
                 Inl e \<Rightarrow> Inl e
               | Inr post \<Rightarrow> filter_post subreddit_filter score_threshold post) of
           Inl e \<Rightarrow> if e = JSONDecodeError then Inr None else Inl e
         | Inr r \<Rightarrow> Inr r))"

text \<open>
  \<^verbatim>\<open>for line in lines\<close> with the bytes written to \<^verbatim>\<open>out_file\<close> so far as the state; an
  exception leaves the loop with what was written before it.
\<close>

fun write_lines :: "library \<Rightarrow> pystr \<Rightarrow> int \<Rightarrow> bytes \<Rightarrow> bytes list \<Rightarrow> bytes \<times> py_error option" where
  "write_lines L subreddit_filter score_threshold out [] = (out, None)"
| "write_lines L subreddit_filter score_threshold out (line # lines) =
     (case process_line L subreddit_filter score_threshold line of
        Inl e \<Rightarrow> (out, Some e)
      | Inr None \<Rightarrow> write_lines L subreddit_filter score_threshold out lines
      | Inr (Some r) \<Rightarrow>
          write_lines L subreddit_filter score_threshold (out @ dumps L r @ ''\<newline>'') lines)"

text \<open>
  \<^verbatim>\<open>for chunk in iter(lambda: stream_reader.read(2**20), b'')\<close>: the loop ends at the
  first empty chunk, an exception of \<^verbatim>\<open>read\<close> propagates. Each chunk is appended to
  \<^verbatim>\<open>buffer\<close>, the buffer is split at newlines, the last segment is kept as the new
  buffer (\<^verbatim>\<open>lines.pop()\<close>) and the others go to the inner loop \<open>inner\<close>, which works on
  a state \<open>s\<close>.
\<close>

fun read_loop ::
  "('s \<Rightarrow> bytes list \<Rightarrow> 's \<times> py_error option) \<Rightarrow> bytes \<Rightarrow> 's \<Rightarrow> read_result list
     \<Rightarrow> 's \<times> py_error option" where
  "read_loop inner buffer s [] = (s, None)"
| "read_loop inner buffer s (ReadFails # rs) = (s, Some ZstdError)"
| "read_loop inner buffer s (Chunk chunk # rs) =
     (if chunk = [] then (s, None)
      else
        (let lines = split_nl (buffer @ chunk) in
           (case inner s (butlast lines) of
              (s', Some e) \<Rightarrow> (s', Some e)
            | (s', None) \<Rightarrow> read_loop inner (last lines) s' rs)))"

text \<open>The Stream Decoder on its own: the inner loop only records the lines it is given.\<close>

definition yield_lines :: "bytes list \<Rightarrow> bytes list \<Rightarrow> bytes list \<times> py_error option" where
  "yield_lines yielded lines = (yielded @ lines, None)"

definition decoder_lines :: "read_result list \<Rightarrow> bytes list" where
  "decoder_lines rs = fst (read_loop yield_lines [] [] rs)"

text \<open>
  \<^verbatim>\<open>process_pushshift_zst\<close>. The input file is opened first and the output file second;
  opening for writing creates the file or truncates it, before the first \<^verbatim>\<open>read\<close>. The
  reader therefore sees the input file as it is after the truncation (which matters
  only when both paths are the same). Leaving the \<^verbatim>\<open>with\<close> block, also by an exception,
  closes the output file with everything written so far. An \<^verbatim>\<open>open\<close> that the file
  system refuses raises \<^verbatim>\<open>OSError\<close>, which nothing catches: the input is opened
  first, so a refused input leaves the output path untouched, and a refused output path
  is neither created nor truncated.
\<close>

definition isfile :: "world \<Rightarrow> string \<Rightarrow> bool" where
  "isfile w p = (files w p \<noteq> None)"

definition not_found_message :: "string \<Rightarrow> string" where
  "not_found_message input_path = ''Error: File '' @ [CHR 0x27] @ input_path @ [CHR 0x27] @ '' not found.''"

definition process_pushshift_zst ::
  "library \<Rightarrow> world \<Rightarrow> string \<Rightarrow> string \<Rightarrow> pystr \<Rightarrow> int \<Rightarrow> world \<times> py_error option" where
  "process_pushshift_zst L w input_path output_path subreddit_filter score_threshold =
     (if \<not> isfile w input_path then
        (w\<lparr>stdout := stdout w @ [not_found_message input_path]\<rparr>, None)
      else if input_path \<in> read_denied w then (w, Some OSError)
      else if output_path \<in> write_denied w then (w, Some OSError)
      else
        (let w1 = w\<lparr>files := (files w)(output_path \<mapsto> [])\<rparr>;
             f = (case files w1 input_path of None \<Rightarrow> [] | Some content \<Rightarrow> content);
             (out, exc) = read_loop (write_lines L subreddit_filter score_threshold) [] []
                            (stream_reads L f)
         in (w1\<lparr>files := (files w1)(output_path \<mapsto> out)\<rparr>, exc)))"

text \<open>
  The \<^verbatim>\<open>__main__\<close> block, with the exit status of the process: 1 from \<^verbatim>\<open>sys.exit(1)\<close>
  and from an uncaught exception, 0 when the script runs to its end.
\<close>

definition usage_message :: string where
  "usage_message = ''Usage: python filter_pushshift.py <input_file.zst> <output_file.jsonl>''"

definition main :: "library \<Rightarrow> world \<Rightarrow> string list \<Rightarrow> world \<times> nat" where
  "main L w argv =
     (if length argv \<noteq> 3 then (w\<lparr>stdout := stdout w @ [usage_message]\<rparr>, 1)
      else
        (case process_pushshift_zst L w (argv ! 1) (argv ! 2) (ustr ''climbharder'') 20 of
           (w', None) \<Rightarrow> (w', 0)
         | (w', Some e) \<Rightarrow> (w', 1)))"

section \<open>Reference definitions for the claims\<close>

text \<open>
  The complete lines of a byte stream, in the words of the specification: as long as
  the stream holds a line terminator, the bytes before the first terminator are a line
  and the lines of what follows that terminator come after it; what remains once no
  terminator is left is not a line.
\<close>

function complete_lines :: "bytes \<Rightarrow> bytes list" where
  "complete_lines s =
     (if CHR 0x0A \<in> set s
      then takeWhile (\<lambda>c. c \<noteq> CHR 0x0A) s # complete_lines (tl (dropWhile (\<lambda>c. c \<noteq> CHR 0x0A) s))
      else [])"
  by pat_completeness auto
termination
proof (relation "measure length")
  show "wf (measure length)" by simp
next
  fix s :: bytes
  assume h: "CHR 0x0A \<in> set s"
  then have "dropWhile (\<lambda>c. c \<noteq> CHR 0x0A) s \<noteq> []" by simp
  then have "length (tl (dropWhile (\<lambda>c. c \<noteq> CHR 0x0A) s)) < length (dropWhile (\<lambda>c. c \<noteq> CHR 0x0A) s)"
    by (cases "dropWhile (\<lambda>c. c \<noteq> CHR 0x0A) s") auto
  also have "\<dots> \<le> length s" by (rule length_dropWhile_le)
  finally show "(tl (dropWhile (\<lambda>c. c \<noteq> CHR 0x0A) s), s) \<in> measure length" by simp
qed

declare complete_lines.simps [simp del]

text \<open>
  What a sequence of \<^verbatim>\<open>read\<close> results amounts to for the loop: the chunks it consumes
  (those before the first empty chunk or exception) and how the iteration ends.
\<close>

fun chunks_read :: "read_result list \<Rightarrow> bytes list" where
  "chunks_read [] = []"
| "chunks_read (ReadFails # rs) = []"
| "chunks_read (Chunk chunk # rs) = (if chunk = [] then [] else chunk # chunks_read rs)"

fun reads_end :: "read_result list \<Rightarrow> py_error option" where
  "reads_end [] = None"
| "reads_end (ReadFails # rs) = Some ZstdError"
| "reads_end (Chunk chunk # rs) = (if chunk = [] then None else reads_end rs)"

text \<open>
  The three inclusion predicates of the specification on a parsed object: the
  \<^verbatim>\<open>subreddit\<close> field is present and equals the target, the comparison
  \<^verbatim>\<open>score <= threshold\<close> (score 0 when the field is absent) is false, and the \<^verbatim>\<open>body\<close> field
  (empty when absent) has at least 120 code points after trimming.
\<close>

definition passes_predicates :: "pystr \<Rightarrow> int \<Rightarrow> (pystr \<times> json) list \<Rightarrow> bool" where
  "passes_predicates subreddit_filter score_threshold d =
     (map_of d (ustr ''subreddit'') = Some (JStr subreddit_filter) \<and>
      py_le_int (dict_get d (ustr ''score'') (JInt 0)) score_threshold = Inr False \<and>
      (case dict_get d (ustr ''body'') (JStr []) of
         JStr b \<Rightarrow> 120 \<le> length (str_strip b)
       | _ \<Rightarrow> False))"

text \<open>The value of a score that is a number with a value: an integer, a bool, a finite float.\<close>

fun score_value :: "json \<Rightarrow> rat option" where
  "score_value (JInt i) = Some (of_int i)"
| "score_value (JBool b) = Some (if b then 1 else 0)"
| "score_value (JFloat (Finite r)) = Some r"
| "score_value v = None"

text \<open>
  \<^verbatim>\<open>x > n\<close> for an integer \<open>n\<close>, the strict comparison of the specification: as Python
  evaluates it on a number, and false on a value that is no number.
\<close>

fun float_gt_int :: "pyfloat \<Rightarrow> int \<Rightarrow> bool" where
  "float_gt_int (Finite r) n = (of_int n < r)"
| "float_gt_int PosInf n = True"
| "float_gt_int NegInf n = False"
| "float_gt_int NaN n = False"

fun py_gt_int :: "json \<Rightarrow> int \<Rightarrow> bool" where
  "py_gt_int (JInt i) n = (n < i)"
| "py_gt_int (JBool b) n = (n < (if b then 1 else 0))"
| "py_gt_int (JFloat f) n = float_gt_int f n"
| "py_gt_int v n = False"

text \<open>
  The filter-and-normalize map over a list of lines: the records of the lines that give
  one, in the order of the lines, and the bytes they make in the output file.
\<close>

definition emitted_records :: "library \<Rightarrow> pystr \<Rightarrow> int \<Rightarrow> bytes list \<Rightarrow> result list" where
  "emitted_records L subreddit_filter score_threshold lines =
     List.map_filter
       (\<lambda>line. case process_line L subreddit_filter score_threshold line of
                  Inr (Some r) \<Rightarrow> Some r
                | _ \<Rightarrow> None)
       lines"

definition render :: "library \<Rightarrow> result list \<Rightarrow> bytes" where
  "render L rs = concat (map (\<lambda>r. dumps L r @ ''\<newline>'') rs)"

text \<open>A line is processed without an uncaught exception.\<close>

definition line_ok :: "library \<Rightarrow> pystr \<Rightarrow> int \<Rightarrow> bytes \<Rightarrow> bool" where
  "line_ok L subreddit_filter score_threshold line =
     (case process_line L subreddit_filter score_threshold line of
        Inl e \<Rightarrow> False
      | Inr r \<Rightarrow> True)"

text \<open>The exception of the first line that raises one, if any.\<close>

definition first_error :: "library \<Rightarrow> pystr \<Rightarrow> int \<Rightarrow> bytes list \<Rightarrow> py_error option" where
  "first_error L subreddit_filter score_threshold lines =
     (case dropWhile (line_ok L subreddit_filter score_threshold) lines of
        [] \<Rightarrow> None
      | line # rest \<Rightarrow>
          (case process_line L subreddit_filter score_threshold line of
             Inl e \<Rightarrow> Some e
           | Inr r \<Rightarrow> None))"

text \<open>Both files of a run can be opened.\<close>

definition can_open :: "world \<Rightarrow> string \<Rightarrow> string \<Rightarrow> bool" where
  "can_open w input_path output_path =
     (input_path \<notin> read_denied w \<and> output_path \<notin> write_denied w)"

text \<open>The input file's content as a reader sees it: the empty file when the output
  path is the input path, since the output file is truncated before the first read. The
  decompressed stream a run reads is what the chunks consumed from it add up to, and
  nothing when a file cannot be opened.\<close>

definition input_seen :: "world \<Rightarrow> string \<Rightarrow> string \<Rightarrow> bytes" where
  "input_seen w input_path output_path =
     (if input_path = output_path then []
      else (case files w input_path of None \<Rightarrow> [] | Some content \<Rightarrow> content))"

definition stream_read :: "library \<Rightarrow> world \<Rightarrow> string \<Rightarrow> string \<Rightarrow> bytes" where
  "stream_read L w input_path output_path =
     (if can_open w input_path output_path
      then concat (chunks_read (stream_reads L (input_seen w input_path output_path)))
      else [])"

section \<open>Example data\<close>

text \<open>
  Lines of an archive and the values \<^verbatim>\<open>json.loads\<close> gives for them: a comment, a
  submission whose unrelated \<^verbatim>\<open>body\<close> is long, a comment with a low score, a line that
  is not JSON, and a line that is not UTF-8.
\<close>

definition long_text :: pystr where
  "long_text = replicate 140 (of_char CHR ''x'')"

definition line_comment :: bytes where
  \<open>line_comment =
     ''{"subreddit":"climbharder","score":25,"body":"'' @ replicate 140 CHR ''x'' @ ''"}''\<close>

definition post_comment :: "(pystr \<times> json) list" where
  "post_comment =
     [(ustr ''subreddit'', JStr (ustr ''climbharder'')), (ustr ''score'', JInt 25),
      (ustr ''body'', JStr long_text)]"

definition line_submission :: bytes where
  \<open>line_submission =
     ''{"subreddit":"climbharder","score":50,"title":"T","selftext":"S","body":"''
       @ replicate 140 CHR ''x'' @ ''"}''\<close>

definition post_submission :: "(pystr \<times> json) list" where
  "post_submission =
     [(ustr ''subreddit'', JStr (ustr ''climbharder'')), (ustr ''score'', JInt 50),
      (ustr ''title'', JStr (ustr ''T'')), (ustr ''selftext'', JStr (ustr ''S'')),
      (ustr ''body'', JStr long_text)]"

definition line_low_score :: bytes where
  \<open>line_low_score =
     ''{"subreddit":"climbharder","score":5,"body":"'' @ replicate 140 CHR ''x'' @ ''"}''\<close>

definition post_low_score :: "(pystr \<times> json) list" where
  "post_low_score =
     [(ustr ''subreddit'', JStr (ustr ''climbharder'')), (ustr ''score'', JInt 5),
      (ustr ''body'', JStr long_text)]"

text \<open>A submission without \<^verbatim>\<open>body\<close> and with a long selftext; a comment without score.\<close>

definition post_long_selftext :: "(pystr \<times> json) list" where
  "post_long_selftext =
     [(ustr ''subreddit'', JStr (ustr ''climbharder'')), (ustr ''score'', JInt 50),
      (ustr ''title'', JStr (ustr ''T'')), (ustr ''selftext'', JStr long_text)]"


definition line_not_json :: bytes where
  "line_not_json = ''not json at all''"

definition line_not_utf8 :: bytes where
  "line_not_utf8 = [CHR 0xFF]"

text \<open>
  A library for the examples. Its \<^verbatim>\<open>loads\<close> answers as \<^verbatim>\<open>json.loads\<close> does on the lines
  above (a \<^verbatim>\<open>UnicodeDecodeError\<close> on the byte \<^verbatim>\<open>0xFF\<close>) and with \<^verbatim>\<open>JSONDecodeError\<close>
  elsewhere; its \<^verbatim>\<open>dumps\<close> writes the body between the fixed parts of the object, which
  is what \<^verbatim>\<open>json.dumps\<close> does on printable ASCII without quotes or backslashes; its
  stream reader hands out the file's content as it is, in chunks of at most 64 bytes.
\<close>

definition example_loads :: "bytes \<Rightarrow> py_error + json" where
  "example_loads line =
     (if line = line_comment then Inr (JDict post_comment)
      else if line = line_submission then Inr (JDict post_submission)
      else if line = line_low_score then Inr (JDict post_low_score)
      else if line = line_not_utf8 then Inl UnicodeDecodeError
      else Inl JSONDecodeError)"

definition example_dumps :: "result \<Rightarrow> bytes" where
  \<open>example_dumps r = ''{"body": "'' @ map char_of (body r) @ ''"}''\<close>

fun chunks_of :: "nat \<Rightarrow> bytes \<Rightarrow> read_result list" where
  "chunks_of 0 b = []"
| "chunks_of (Suc n) b = (if b = [] then [] else Chunk (take 64 b) # chunks_of n (drop 64 b))"

definition example_library :: library where
  "example_library =
     \<lparr>loads = example_loads, dumps = example_dumps,
      stream_reads = (\<lambda>f. chunks_of (length f) f)\<rparr>"

text \<open>The same library with a reader that hands out the whole content in one chunk.\<close>

definition single_chunk_library :: library where
  "single_chunk_library =
     \<lparr>loads = example_loads, dumps = example_dumps, stream_reads = (\<lambda>f. [Chunk f])\<rparr>"


text \<open>
  A comment whose score is the float NaN, which \<^verbatim>\<open>json.loads\<close> accepts, and a library
  that parses this line.
\<close>

definition line_nan :: bytes where
  \<open>line_nan =
     ''{"subreddit":"climbharder","score":NaN,"body":"'' @ replicate 140 CHR ''x'' @ ''"}''\<close>

definition post_nan :: "(pystr \<times> json) list" where
  "post_nan =
     [(ustr ''subreddit'', JStr (ustr ''climbharder'')), (ustr ''score'', JFloat NaN),
      (ustr ''body'', JStr long_text)]"

definition nan_library :: library where
  "nan_library =
     \<lparr>loads = (\<lambda>line. if line = line_nan then Inr (JDict post_nan) else Inl JSONDecodeError),
      dumps = example_dumps, stream_reads = (\<lambda>f. [Chunk f])\<rparr>"

text \<open>A file system with an input file of the given content and an older output file,
  where every path can be opened.\<close>

definition example_world :: "bytes \<Rightarrow> world" where
  "example_world content =
     \<lparr>files = [''in.zst'' \<mapsto> content, ''out.jsonl'' \<mapsto> ''stale''],
      read_denied = {}, write_denied = {}, stdout = []\<rparr>"


section \<open>Line reassembly\<close>

lemma split_nl_ne: "split_nl b \<noteq> []"
  by (induction b) (auto split: list.splits)

lemma split_nl_Cons:
  "split_nl (c # cs) =
     (if c = CHR 0x0A then [] # split_nl cs else (c # hd (split_nl cs)) # tl (split_nl cs))"
  using split_nl_ne [of cs] by (cases "split_nl cs") auto

lemma split_nl_no_newline: "CHR 0x0A \<notin> set s \<Longrightarrow> split_nl s = [s]"
  by (induction s) auto

lemma last_split_nl_no_newline: "CHR 0x0A \<notin> set (last (split_nl s))"
  by (induction s) (auto simp: split_nl_ne split: list.splits)

lemma split_nl_append:
  "split_nl (a @ b) =
     butlast (split_nl a) @ ((last (split_nl a) @ hd (split_nl b)) # tl (split_nl b))"
proof (induction a)
  case Nil
  show ?case using split_nl_ne [of b] by simp
next
  case (Cons c a)
  obtain l ls where sa: "split_nl a = l # ls"
    using split_nl_ne [of a] by (cases "split_nl a") auto
  show ?case
  proof (cases "ls = []")
    case True
    with sa Cons show ?thesis by simp
  next
    case False
    with sa Cons show ?thesis by simp
  qed
qed

lemma butlast_split_nl_append:
  "butlast (split_nl (a @ b)) = butlast (split_nl a) @ butlast (split_nl (last (split_nl a) @ b))"
proof -
  have "split_nl (last (split_nl a) @ b) = (last (split_nl a) @ hd (split_nl b)) # tl (split_nl b)"
    using split_nl_append [of "last (split_nl a)" b]
    by (simp add: split_nl_no_newline last_split_nl_no_newline)
  then show ?thesis
    using split_nl_append [of a b] by (simp add: butlast_append)
qed

lemma last_split_nl_append:
  "last (split_nl (a @ b)) = last (split_nl (last (split_nl a) @ b))"
proof -
  have "split_nl (last (split_nl a) @ b) = (last (split_nl a) @ hd (split_nl b)) # tl (split_nl b)"
    using split_nl_append [of "last (split_nl a)" b]
    by (simp add: split_nl_no_newline last_split_nl_no_newline)
  then show ?thesis
    using split_nl_append [of a b] by simp
qed

lemma butlast_split_nl_complete: "butlast (split_nl s) = complete_lines s"
proof (induction s)
  case Nil
  show ?case by (simp add: complete_lines.simps [of "[]"])
next
  case (Cons c cs)
  show ?case
  proof (cases "c = CHR 0x0A")
    case True
    have "complete_lines (CHR 0x0A # cs) = [] # complete_lines cs"
      by (subst complete_lines.simps) simp
    with True Cons show ?thesis
      by (simp add: split_nl_ne)
  next
    case False
    obtain l ls where sp: "split_nl cs = l # ls"
      using split_nl_ne [of cs] by (cases "split_nl cs") auto
    show ?thesis
    proof (cases "CHR 0x0A \<in> set cs")
      case True
      with Cons sp have "butlast (l # ls) =
        takeWhile (\<lambda>c. c \<noteq> CHR 0x0A) cs # complete_lines (tl (dropWhile (\<lambda>c. c \<noteq> CHR 0x0A) cs))"
        by (simp add: complete_lines.simps [of cs])
      with False True sp show ?thesis
        by (simp add: complete_lines.simps [of "c # cs"] split: if_splits)
    next
      case nin: False
      with Cons sp have "butlast (l # ls) = []"
        by (simp add: complete_lines.simps [of cs])
      with False nin sp show ?thesis
        by (simp add: complete_lines.simps [of "c # cs"] split: if_splits)
    qed
  qed
qed

lemma read_loop_stream:
  assumes nil: "\<And>s. inner s [] = (s, None)"
    and app: "\<And>s a b. inner s (a @ b) =
       (case inner s a of (s', Some e) \<Rightarrow> (s', Some e) | (s', None) \<Rightarrow> inner s' b)"
  shows "CHR 0x0A \<notin> set buffer \<Longrightarrow> read_loop inner buffer s rs =
     (case inner s (butlast (split_nl (buffer @ concat (chunks_read rs)))) of
        (s', Some e) \<Rightarrow> (s', Some e)
      | (s', None) \<Rightarrow> (s', reads_end rs))"
proof (induction rs arbitrary: buffer s)
  case Nil
  then show ?case
    by (simp add: nil split_nl_no_newline)
next
  case (Cons r rs)
  show ?case
  proof (cases r)
    case ReadFails
    with Cons.prems show ?thesis
      by (simp add: nil split_nl_no_newline)
  next
    case (Chunk chunk)
    show ?thesis
    proof (cases "chunk = []")
      case True
      with Chunk Cons.prems show ?thesis
        by (simp add: nil split_nl_no_newline)
    next
      case False
      have eq: "butlast (split_nl (buffer @ chunk @ concat (chunks_read rs))) =
            butlast (split_nl (buffer @ chunk)) @
            butlast (split_nl (last (split_nl (buffer @ chunk)) @ concat (chunks_read rs)))"
        using butlast_split_nl_append [of "buffer @ chunk" "concat (chunks_read rs)"] by simp
      have ih: "\<And>s'. read_loop inner (last (split_nl (buffer @ chunk))) s' rs =
         (case inner s' (butlast (split_nl (last (split_nl (buffer @ chunk)) @ concat (chunks_read rs)))) of
            (s'', Some e) \<Rightarrow> (s'', Some e)
          | (s'', None) \<Rightarrow> (s'', reads_end rs))"
        by (rule Cons.IH) (rule last_split_nl_no_newline)
      show ?thesis
        unfolding Chunk
        by (simp add: False eq ih app [of s "butlast (split_nl (buffer @ chunk))"] 
                 split: prod.splits option.splits)
    qed
  qed
qed

section \<open>The Stream Decoder\<close>

lemma write_lines_append:
  "write_lines L sf st out (a @ b) =
     (case write_lines L sf st out a of
        (out', Some e) \<Rightarrow> (out', Some e)
      | (out', None) \<Rightarrow> write_lines L sf st out' b)"
  by (induction a arbitrary: out) (auto split: sum.splits option.splits)

lemma yield_lines_append:
  "yield_lines s (a @ b) =
     (case yield_lines s a of (s', Some e) \<Rightarrow> (s', Some e) | (s', None) \<Rightarrow> yield_lines s' b)"
  by (simp add: yield_lines_def)

lemma decoder_lines_stream:
  "decoder_lines rs = complete_lines (concat (chunks_read rs))"
proof -
  have "read_loop yield_lines [] [] rs =
     (case yield_lines [] (butlast (split_nl ([] @ concat (chunks_read rs)))) of
        (s', Some e) \<Rightarrow> (s', Some e)
      | (s', None) \<Rightarrow> (s', reads_end rs))"
    by (rule read_loop_stream) (simp_all add: yield_lines_def)
  then show ?thesis
    by (simp add: decoder_lines_def yield_lines_def butlast_split_nl_complete)
qed

lemma chunks_read_Chunks: "[] \<notin> set chunks \<Longrightarrow> chunks_read (map Chunk chunks) = chunks"
  by (induction chunks) auto

lemma complete_lines_decompose:
  "\<exists>rest. CHR 0x0A \<notin> set rest \<and>
     s = concat (map (\<lambda>l. l @ [CHR 0x0A]) (complete_lines s)) @ rest"
proof (induction s rule: complete_lines.induct)
  case (1 s)
  show ?case
  proof (cases "CHR 0x0A \<in> set s")
    case False
    then show ?thesis by (simp add: complete_lines.simps [of s])
  next
    case True
    let ?d = "dropWhile (\<lambda>c. c \<noteq> CHR 0x0A) s"
    from True have "?d \<noteq> []" by simp
    moreover from this have "hd ?d = CHR 0x0A" using hd_dropWhile [of "\<lambda>c. c \<noteq> CHR 0x0A" s] by simp
    ultimately have d: "?d = CHR 0x0A # tl ?d" by (cases ?d) auto
    from 1 [OF True] obtain rest where r: "CHR 0x0A \<notin> set rest"
      "tl ?d = concat (map (\<lambda>l. l @ [CHR 0x0A]) (complete_lines (tl ?d))) @ rest" by blast
    have "s = takeWhile (\<lambda>c. c \<noteq> CHR 0x0A) s @ ?d" by simp
    also have "\<dots> = takeWhile (\<lambda>c. c \<noteq> CHR 0x0A) s @ [CHR 0x0A] @ tl ?d" using d by simp
    finally have "s = concat (map (\<lambda>l. l @ [CHR 0x0A]) (complete_lines s)) @ rest"
      using r(2) True by (simp add: complete_lines.simps [of s])
    with r(1) show ?thesis by blast
  qed
qed

lemma complete_lines_no_newline: "l \<in> set (complete_lines s) \<Longrightarrow> CHR 0x0A \<notin> set l"
proof (induction s rule: complete_lines.induct)
  case (1 s)
  show ?case
  proof (cases "CHR 0x0A \<in> set s")
    case False
    with 1(2) show ?thesis by (simp add: complete_lines.simps [of s])
  next
    case True
    with 1(2) have "l = takeWhile (\<lambda>c. c \<noteq> CHR 0x0A) s \<or>
        l \<in> set (complete_lines (tl (dropWhile (\<lambda>c. c \<noteq> CHR 0x0A) s)))"
      by (simp add: complete_lines.simps [of s])
    then show ?thesis
    proof
      assume "l = takeWhile (\<lambda>c. c \<noteq> CHR 0x0A) s"
      then show ?thesis by (auto dest: set_takeWhileD)
    next
      assume "l \<in> set (complete_lines (tl (dropWhile (\<lambda>c. c \<noteq> CHR 0x0A) s)))"
      with 1(1) [OF True] show ?thesis .
    qed
  qed
qed

text \<open>
  Claim C5. For every decompressed stream and every way of cutting it into non-empty
  chunks, the lines the decoder yields are exactly the complete lines of the stream, in
  order: no yielded line holds a terminator, and the stream is the yielded lines, each
  followed by its terminator, and then a rest without terminator, which is never yielded.
\<close>

theorem decoder_yields_complete_lines:
  "[] \<notin> set chunks \<Longrightarrow>
     decoder_lines (map Chunk chunks) = complete_lines (concat chunks) \<and>
     (\<forall>l \<in> set (decoder_lines (map Chunk chunks)). CHR 0x0A \<notin> set l) \<and>
     (\<exists>rest. CHR 0x0A \<notin> set rest \<and>
        concat chunks =
          concat (map (\<lambda>l. l @ [CHR 0x0A]) (decoder_lines (map Chunk chunks))) @ rest)"
  using complete_lines_decompose [of "concat chunks"]
  by (auto simp: decoder_lines_stream chunks_read_Chunks dest: complete_lines_no_newline)

theorem decoder_yields_complete_lines_witness:
  "[] \<notin> set [''ab'', ''c\<newline>d'', ''\<newline>'', ''e\<newline>f''] \<and>
   concat [''ab'', ''c\<newline>d'', ''\<newline>'', ''e\<newline>f''] = ''abc\<newline>d\<newline>e\<newline>f'' \<and>
   decoder_lines (map Chunk [''ab'', ''c\<newline>d'', ''\<newline>'', ''e\<newline>f'']) = [''abc'', ''d'', ''e'']"
  using decoder_yields_complete_lines [of "[''ab'', ''c\<newline>d'', ''\<newline>'', ''e\<newline>f'']"]
  by (simp add: complete_lines.simps)

section \<open>The Record Filter/Normalizer\<close>

lemma str_strip_id:
  "s \<noteq> [] \<Longrightarrow> \<not> str_isspace (hd s) \<Longrightarrow> \<not> str_isspace (last s) \<Longrightarrow> str_strip s = s"
proof -
  assume ne: "s \<noteq> []" and h: "\<not> str_isspace (hd s)" and l: "\<not> str_isspace (last s)"
  from ne h have "dropWhile str_isspace s = s" by (cases s) auto
  moreover from ne l have "dropWhile str_isspace (rev s) = rev s"
    by (cases "rev s") (auto simp: last_rev [symmetric] simp del: last_rev)
  ultimately show ?thesis by (simp add: str_strip_def)
qed

lemma str_strip_long_text: "str_strip long_text = long_text"
  by (rule str_strip_id) (simp_all add: long_text_def str_isspace_def)

lemma length_long_text: "length long_text = 140"
  by (simp add: long_text_def)

lemma str_strip_T: "str_strip (ustr ''T'') = ustr ''T''"
  by (simp add: str_strip_def ustr_def str_isspace_def)

lemma str_strip_S: "str_strip (ustr ''S'') = ustr ''S''"
  by (simp add: str_strip_def ustr_def str_isspace_def)

lemma py_le_int_False_value:
  "py_le_int v n = Inr False \<Longrightarrow> score_value v = Some x \<Longrightarrow> of_int n < x"
  by (induction v rule: score_value.induct) (auto split: if_splits)

lemma process_line_Some:
  "process_line L sf st line = Inr (Some r) \<Longrightarrow>
     \<exists>post. loads L line = Inr post \<and> filter_post sf st post = Inr (Some r)"
  by (auto simp: process_line_def split: if_splits sum.splits)

lemma filter_post_Some:
  "filter_post sf st post = Inr (Some r) \<Longrightarrow> \<exists>d. post = JDict d \<and> passes_predicates sf st d"
  by (auto simp: filter_post_def passes_predicates_def dict_get_def
           split: json.splits if_splits sum.splits bool.splits option.splits
           elim!: py_strip.elims)

lemma emitted_records_origin:
  "r \<in> set (emitted_records L sf st lines) \<Longrightarrow>
     \<exists>line \<in> set lines. process_line L sf st line = Inr (Some r)"
  by (induction lines)
     (auto simp: emitted_records_def map_filter_simps split: sum.splits option.splits)

lemma py_le_int_False_gt:
  "py_le_int v n = Inr False \<Longrightarrow> v \<noteq> JFloat NaN \<Longrightarrow> py_gt_int v n"
proof (cases v)
  case (JFloat f)
  assume "py_le_int v n = Inr False" "v \<noteq> JFloat NaN"
  with JFloat show ?thesis by (cases f) auto
qed (auto split: if_splits)

text \<open>
  Claim C2, as the code has it. Every record among those emitted for the lines of a run
  comes from a line whose parsed value is an object that satisfies the three inclusion
  predicates: the subreddit is present and equals the target, the comparison of the
  score (0 when absent) with the threshold by \<^verbatim>\<open><=\<close> is false, and the trimmed body has
  at least 120 code points. The score is then strictly greater than the threshold
  unless it is the float NaN, for which both comparisons are false.
\<close>

theorem emitted_record_satisfies_predicates:
  assumes "r \<in> set (emitted_records L subreddit_filter score_threshold lines)"
  shows "\<exists>line \<in> set lines. \<exists>d.
           process_line L subreddit_filter score_threshold line = Inr (Some r) \<and>
           loads L line = Inr (JDict d) \<and>
           passes_predicates subreddit_filter score_threshold d \<and>
           (dict_get d (ustr ''score'') (JInt 0) \<noteq> JFloat NaN
              \<longrightarrow> py_gt_int (dict_get d (ustr ''score'') (JInt 0)) score_threshold) \<and>
           (\<forall>x. score_value (dict_get d (ustr ''score'') (JInt 0)) = Some x
                 \<longrightarrow> of_int score_threshold < x)"
proof -
  from assms obtain line where l: "line \<in> set lines"
    "process_line L subreddit_filter score_threshold line = Inr (Some r)"
    by (blast dest: emitted_records_origin)
  from l(2) obtain post where p: "loads L line = Inr post"
    "filter_post subreddit_filter score_threshold post = Inr (Some r)"
    by (blast dest: process_line_Some)
  from p(2) obtain d where d: "post = JDict d"
    "passes_predicates subreddit_filter score_threshold d"
    by (blast dest: filter_post_Some)
  from d(2) have le: "py_le_int (dict_get d (ustr ''score'') (JInt 0)) score_threshold = Inr False"
    by (simp add: passes_predicates_def)
  from le have v: "\<forall>x. score_value (dict_get d (ustr ''score'') (JInt 0)) = Some x
                 \<longrightarrow> of_int score_threshold < x"
    by (auto dest: py_le_int_False_value)
  from le have g: "dict_get d (ustr ''score'') (JInt 0) \<noteq> JFloat NaN
              \<longrightarrow> py_gt_int (dict_get d (ustr ''score'') (JInt 0)) score_threshold"
    by (auto dest: py_le_int_False_gt)
  from l p d v g show ?thesis by blast
qed

lemma example_lines_distinct:
  "line_submission \<noteq> line_comment" "line_low_score \<noteq> line_comment"
  "line_low_score \<noteq> line_submission" "line_not_json \<noteq> line_comment"
  "line_not_json \<noteq> line_submission" "line_not_json \<noteq> line_low_score"
  "line_not_json \<noteq> line_not_utf8" "line_not_utf8 \<noteq> line_comment"
  "line_not_utf8 \<noteq> line_submission" "line_not_utf8 \<noteq> line_low_score"
  by (simp_all add: line_comment_def line_submission_def line_low_score_def line_not_json_def
        line_not_utf8_def)

lemma example_lines_not_blank:
  "bytes_strip line_comment \<noteq> []" "bytes_strip line_submission \<noteq> []"
  "bytes_strip line_low_score \<noteq> []" "bytes_strip line_not_json \<noteq> []"
  "bytes_strip line_not_utf8 \<noteq> []"
  by (simp_all add: line_comment_def line_submission_def line_low_score_def line_not_json_def
        line_not_utf8_def bytes_strip_def bytes_isspace_def)

lemma filter_post_comment:
  "filter_post (ustr ''climbharder'') 20 (JDict post_comment) = Inr (Some \<lparr>body = long_text\<rparr>)"
  by (simp add: filter_post_def post_comment_def dict_get_def dict_has_def ustr_def
        str_strip_long_text length_long_text)

lemma filter_post_submission:
  "filter_post (ustr ''climbharder'') 20 (JDict post_submission) =
     Inr (Some \<lparr>body = ustr ''T S''\<rparr>)"
  using str_strip_T str_strip_S
  by (simp add: filter_post_def post_submission_def dict_get_def dict_has_def ustr_def
        str_strip_long_text length_long_text)

lemma filter_post_low_score:
  "filter_post (ustr ''climbharder'') 20 (JDict post_low_score) = Inr None"
  by (simp add: filter_post_def post_low_score_def dict_get_def dict_has_def ustr_def)

lemma process_line_examples:
  "process_line example_library (ustr ''climbharder'') 20 line_comment =
     Inr (Some \<lparr>body = long_text\<rparr>)"
  "process_line example_library (ustr ''climbharder'') 20 line_submission =
     Inr (Some \<lparr>body = ustr ''T S''\<rparr>)"
  "process_line example_library (ustr ''climbharder'') 20 line_low_score = Inr None"
  "process_line example_library (ustr ''climbharder'') 20 line_not_json = Inr None"
  "process_line example_library (ustr ''climbharder'') 20 line_not_utf8 = Inl UnicodeDecodeError"
  by (simp_all add: process_line_def example_library_def example_loads_def
        example_lines_distinct example_lines_not_blank
        filter_post_comment filter_post_submission filter_post_low_score)

theorem emitted_record_satisfies_predicates_witness:
  "\<lparr>body = long_text\<rparr> \<in>
     set (emitted_records example_library (ustr ''climbharder'') 20 [line_low_score, line_comment]) \<and>
   (\<exists>line \<in> set [line_low_score, line_comment]. \<exists>d.
      process_line example_library (ustr ''climbharder'') 20 line = Inr (Some \<lparr>body = long_text\<rparr>) \<and>
      loads example_library line = Inr (JDict d) \<and>
      passes_predicates (ustr ''climbharder'') 20 d \<and>
      (dict_get d (ustr ''score'') (JInt 0) \<noteq> JFloat NaN
         \<longrightarrow> py_gt_int (dict_get d (ustr ''score'') (JInt 0)) 20) \<and>
      (\<forall>x. score_value (dict_get d (ustr ''score'') (JInt 0)) = Some x \<longrightarrow> of_int 20 < x))"
proof -
  have h: "\<lparr>body = long_text\<rparr> \<in>
     set (emitted_records example_library (ustr ''climbharder'') 20 [line_low_score, line_comment])"
    by (simp add: emitted_records_def map_filter_simps process_line_examples)
  from emitted_record_satisfies_predicates [OF h] h show ?thesis by simp
qed

text \<open>
  Claim C2 as written, with the score strictly greater than the threshold for every
  emitted record, fails on a score that is NaN: \<^verbatim>\<open>NaN <= 20\<close> is false, so the record
  passes line 27 of the script and is emitted, and \<^verbatim>\<open>NaN > 20\<close> is false as well.
\<close>

theorem nan_score_emitted_counterexample:
  "loads nan_library line_nan = Inr (JDict post_nan) \<and>
   \<lparr>body = long_text\<rparr> \<in>
     set (emitted_records nan_library (ustr ''climbharder'') 20 [line_nan]) \<and>
   \<not> py_gt_int (dict_get post_nan (ustr ''score'') (JInt 0)) 20"
proof -
  have n: "bytes_strip line_nan \<noteq> []"
    by (simp add: line_nan_def bytes_strip_def bytes_isspace_def)
  have f: "filter_post (ustr ''climbharder'') 20 (JDict post_nan) = Inr (Some \<lparr>body = long_text\<rparr>)"
    by (simp add: filter_post_def post_nan_def dict_get_def dict_has_def ustr_def
          str_strip_long_text length_long_text)
  have p: "process_line nan_library (ustr ''climbharder'') 20 line_nan =
             Inr (Some \<lparr>body = long_text\<rparr>)"
    by (simp add: process_line_def nan_library_def n f)
  have g: "\<not> py_gt_int (dict_get post_nan (ustr ''score'') (JInt 0)) 20"
    by (simp add: post_nan_def dict_get_def ustr_def)
  have l: "loads nan_library line_nan = Inr (JDict post_nan)"
    by (simp add: nan_library_def)
  from p g l show ?thesis
    by (simp add: emitted_records_def map_filter_simps)
qed

lemma py_strip_JStr: "py_strip v = Inr s \<Longrightarrow> \<exists>t. v = JStr t \<and> s = str_strip t"
  by (cases v) auto

lemma ustr_space: "ustr '' '' = [32]"
  by (simp add: ustr_def)

text \<open>
  Claim C3. The length gate reads the trimmed \<^verbatim>\<open>body\<close> field of every record that has
  passed the subreddit and score gates, whatever its title and selftext are: with a
  trimmed body of fewer than 120 code points the record is rejected, and a submission
  with a trimmed body of at least 120 code points is emitted with its title and
  selftext, however short they are.
\<close>

theorem length_gate_reads_body_field:
  assumes "map_of d (ustr ''subreddit'') = Some (JStr subreddit_filter)"
    and "py_le_int (dict_get d (ustr ''score'') (JInt 0)) score_threshold = Inr False"
    and "dict_get d (ustr ''body'') (JStr []) = JStr b"
  shows "(length (str_strip b) < 120 \<longrightarrow>
            filter_post subreddit_filter score_threshold (JDict d) = Inr None) \<and>
         (120 \<le> length (str_strip b) \<longrightarrow>
            map_of d (ustr ''title'') = Some (JStr t) \<longrightarrow>
            dict_get d (ustr ''selftext'') (JStr []) = JStr s \<longrightarrow>
            filter_post subreddit_filter score_threshold (JDict d) =
              Inr (Some \<lparr>body = str_strip t @ ustr '' '' @ str_strip s\<rparr>))"
  using assms by (simp add: filter_post_def dict_get_def dict_has_def)

theorem length_gate_reads_body_field_witness:
  "filter_post (ustr ''climbharder'') 20 (JDict post_long_selftext) = Inr None \<and>
   filter_post (ustr ''climbharder'') 20 (JDict post_submission) =
     Inr (Some \<lparr>body = str_strip (ustr ''T'') @ ustr '' '' @ str_strip (ustr ''S'')\<rparr>) \<and>
   length (str_strip (ustr ''T'') @ ustr '' '' @ str_strip (ustr ''S'')) = 3"
proof -
  have a: "map_of post_long_selftext (ustr ''subreddit'') = Some (JStr (ustr ''climbharder''))"
    "py_le_int (dict_get post_long_selftext (ustr ''score'') (JInt 0)) 20 = Inr False"
    "dict_get post_long_selftext (ustr ''body'') (JStr []) = JStr []"
    by (simp_all add: post_long_selftext_def dict_get_def ustr_def)
  have b: "map_of post_submission (ustr ''subreddit'') = Some (JStr (ustr ''climbharder''))"
    "py_le_int (dict_get post_submission (ustr ''score'') (JInt 0)) 20 = Inr False"
    "dict_get post_submission (ustr ''body'') (JStr []) = JStr long_text"
    "map_of post_submission (ustr ''title'') = Some (JStr (ustr ''T''))"
    "dict_get post_submission (ustr ''selftext'') (JStr []) = JStr (ustr ''S'')"
    by (simp_all add: post_submission_def dict_get_def ustr_def)
  have c: "length (str_strip []) < 120" "120 \<le> length (str_strip long_text)"
    by (simp add: str_strip_def) (simp add: str_strip_long_text length_long_text)
  from length_gate_reads_body_field [OF a, of "[]" "[]"] c(1)
  have 1: "filter_post (ustr ''climbharder'') 20 (JDict post_long_selftext) = Inr None"
    by simp
  from length_gate_reads_body_field [OF b(1,2,3), of "ustr ''T''" "ustr ''S''"] b(4,5) c(2)
  have 2: "filter_post (ustr ''climbharder'') 20 (JDict post_submission) =
     Inr (Some \<lparr>body = str_strip (ustr ''T'') @ ustr '' '' @ str_strip (ustr ''S'')\<rparr>)"
    by simp
  have 3: "length (str_strip (ustr ''T'') @ ustr '' '' @ str_strip (ustr ''S'')) = 3"
    by (simp add: str_strip_T str_strip_S) (simp add: ustr_def)
  from 1 2 3 show ?thesis by simp
qed

text \<open>
  Claim C4. For a parsed object that passes the inclusion predicates: when it has a
  \<^verbatim>\<open>title\<close> key, the emitted body is the trimmed title, one space, and the trimmed
  selftext (the empty string when absent); otherwise it is the trimmed body. Conversely
  every emitted record has one of these two forms.
\<close>

theorem emitted_body_construction:
  "(passes_predicates subreddit_filter score_threshold d \<longrightarrow>
      dict_has d (ustr ''title'') \<longrightarrow>
      dict_get d (ustr ''title'') (JStr []) = JStr t \<longrightarrow>
      dict_get d (ustr ''selftext'') (JStr []) = JStr s \<longrightarrow>
      filter_post subreddit_filter score_threshold (JDict d) =
        Inr (Some \<lparr>body = str_strip t @ [32] @ str_strip s\<rparr>)) \<and>
   (passes_predicates subreddit_filter score_threshold d \<longrightarrow>
      \<not> dict_has d (ustr ''title'') \<longrightarrow>
      dict_get d (ustr ''body'') (JStr []) = JStr b \<longrightarrow>
      filter_post subreddit_filter score_threshold (JDict d) =
        Inr (Some \<lparr>body = str_strip b\<rparr>)) \<and>
   (filter_post subreddit_filter score_threshold (JDict d) = Inr (Some r) \<longrightarrow>
      (if dict_has d (ustr ''title'')
       then \<exists>t s. dict_get d (ustr ''title'') (JStr []) = JStr t \<and>
                  dict_get d (ustr ''selftext'') (JStr []) = JStr s \<and>
                  body r = str_strip t @ [32] @ str_strip s
       else \<exists>b. dict_get d (ustr ''body'') (JStr []) = JStr b \<and> body r = str_strip b))"
proof (intro conjI impI)
  assume "passes_predicates subreddit_filter score_threshold d"
    "dict_has d (ustr ''title'')" "dict_get d (ustr ''title'') (JStr []) = JStr t"
    "dict_get d (ustr ''selftext'') (JStr []) = JStr s"
  then show "filter_post subreddit_filter score_threshold (JDict d) =
        Inr (Some \<lparr>body = str_strip t @ [32] @ str_strip s\<rparr>)"
    by (auto simp: passes_predicates_def filter_post_def dict_get_def ustr_space
             split: json.splits)
next
  assume "passes_predicates subreddit_filter score_threshold d"
    "\<not> dict_has d (ustr ''title'')" "dict_get d (ustr ''body'') (JStr []) = JStr b"
  then show "filter_post subreddit_filter score_threshold (JDict d) =
        Inr (Some \<lparr>body = str_strip b\<rparr>)"
    by (auto simp: passes_predicates_def filter_post_def dict_get_def ustr_space
             split: json.splits)
next
  assume "filter_post subreddit_filter score_threshold (JDict d) = Inr (Some r)"
  then show "if dict_has d (ustr ''title'')
       then \<exists>t s. dict_get d (ustr ''title'') (JStr []) = JStr t \<and>
                  dict_get d (ustr ''selftext'') (JStr []) = JStr s \<and>
                  body r = str_strip t @ [32] @ str_strip s
       else \<exists>b. dict_get d (ustr ''body'') (JStr []) = JStr b \<and> body r = str_strip b"
    by (auto simp: filter_post_def ustr_space split: if_splits sum.splits bool.splits
             dest!: py_strip_JStr)
qed

lemma passes_predicates_examples:
  "passes_predicates (ustr ''climbharder'') 20 post_submission"
  "passes_predicates (ustr ''climbharder'') 20 post_comment"
  by (simp_all add: passes_predicates_def post_submission_def post_comment_def dict_get_def
        ustr_def str_strip_long_text length_long_text)

theorem emitted_body_construction_witness:
  "passes_predicates (ustr ''climbharder'') 20 post_submission \<and>
   dict_has post_submission (ustr ''title'') \<and>
   filter_post (ustr ''climbharder'') 20 (JDict post_submission) =
     Inr (Some \<lparr>body = str_strip (ustr ''T'') @ [32] @ str_strip (ustr ''S'')\<rparr>) \<and>
   passes_predicates (ustr ''climbharder'') 20 post_comment \<and>
   \<not> dict_has post_comment (ustr ''title'') \<and>
   filter_post (ustr ''climbharder'') 20 (JDict post_comment) =
     Inr (Some \<lparr>body = str_strip long_text\<rparr>)"
proof -
  have a: "dict_has post_submission (ustr ''title'')"
    "dict_get post_submission (ustr ''title'') (JStr []) = JStr (ustr ''T'')"
    "dict_get post_submission (ustr ''selftext'') (JStr []) = JStr (ustr ''S'')"
    by (simp_all add: post_submission_def dict_get_def dict_has_def ustr_def)
  have b: "\<not> dict_has post_comment (ustr ''title'')"
    "dict_get post_comment (ustr ''body'') (JStr []) = JStr long_text"
    by (simp_all add: post_comment_def dict_get_def dict_has_def ustr_def)
  from emitted_body_construction
         [of "ustr ''climbharder''" 20 post_submission "ustr ''T''" "ustr ''S''"]
       passes_predicates_examples(1) a
  have 1: "filter_post (ustr ''climbharder'') 20 (JDict post_submission) =
     Inr (Some \<lparr>body = str_strip (ustr ''T'') @ [32] @ str_strip (ustr ''S'')\<rparr>)"
    by blast
  from emitted_body_construction
         [of "ustr ''climbharder''" 20 post_comment _ _ long_text]
       passes_predicates_examples(2) b
  have 2: "filter_post (ustr ''climbharder'') 20 (JDict post_comment) =
     Inr (Some \<lparr>body = str_strip long_text\<rparr>)"
    by blast
  from 1 2 a(1) b(1) passes_predicates_examples show ?thesis by simp
qed



section \<open>The whole run\<close>

lemma write_lines_result:
  "write_lines L sf st out lines =
     (out @ render L (emitted_records L sf st (takeWhile (line_ok L sf st) lines)),
      first_error L sf st lines)"
  by (induction lines arbitrary: out)
     (auto simp: render_def emitted_records_def map_filter_simps line_ok_def first_error_def
           split: sum.splits option.splits)

lemma read_loop_write_lines:
  "read_loop (write_lines L sf st) [] [] rs =
     (render L (emitted_records L sf st
        (takeWhile (line_ok L sf st) (complete_lines (concat (chunks_read rs))))),
      (case first_error L sf st (complete_lines (concat (chunks_read rs))) of
         Some e \<Rightarrow> Some e
       | None \<Rightarrow> reads_end rs))"
proof -
  have "read_loop (write_lines L sf st) [] [] rs =
     (case write_lines L sf st [] (butlast (split_nl ([] @ concat (chunks_read rs)))) of
        (s', Some e) \<Rightarrow> (s', Some e)
      | (s', None) \<Rightarrow> (s', reads_end rs))"
    by (rule read_loop_stream) (simp_all add: write_lines_append)
  then show ?thesis
    by (simp add: butlast_split_nl_complete write_lines_result split: option.splits)
qed

lemma process_pushshift_zst_result:
  assumes "isfile w input_path" and "can_open w input_path output_path"
  shows "process_pushshift_zst L w input_path output_path sf st =
     (w\<lparr>files := (files w)(output_path \<mapsto>
          render L (emitted_records L sf st
            (takeWhile (line_ok L sf st)
               (complete_lines (stream_read L w input_path output_path)))))\<rparr>,
      (case first_error L sf st (complete_lines (stream_read L w input_path output_path)) of
         Some e \<Rightarrow> Some e
       | None \<Rightarrow> reads_end (stream_reads L (input_seen w input_path output_path))))"
proof -
  have eq: "(case files (w\<lparr>files := (files w)(output_path \<mapsto> [])\<rparr>) input_path of
               None \<Rightarrow> [] | Some content \<Rightarrow> content)
          = input_seen w input_path output_path"
    by (simp add: input_seen_def)
  from assms(2) have o: "input_path \<notin> read_denied w" "output_path \<notin> write_denied w"
    by (simp_all add: can_open_def)
  show ?thesis
    unfolding process_pushshift_zst_def Let_def eq
    using assms o by (simp add: read_loop_write_lines stream_read_def)
qed

lemma process_pushshift_zst_refused:
  assumes "isfile w input_path" and "\<not> can_open w input_path output_path"
  shows "process_pushshift_zst L w input_path output_path sf st = (w, Some OSError)"
  using assms by (auto simp: process_pushshift_zst_def can_open_def)

lemma stream_read_refused:
  "\<not> can_open w input_path output_path \<Longrightarrow> stream_read L w input_path output_path = []"
  by (simp add: stream_read_def)

lemma first_error_None_takeWhile:
  "first_error L sf st lines = None \<Longrightarrow> takeWhile (line_ok L sf st) lines = lines"
proof -
  assume a: "first_error L sf st lines = None"
  have "dropWhile (line_ok L sf st) lines = []"
  proof (cases "dropWhile (line_ok L sf st) lines")
    case Nil then show ?thesis .
  next
    case (Cons l rest)
    then have "\<not> line_ok L sf st l" using hd_dropWhile [of "line_ok L sf st" lines] by simp
    with a Cons show ?thesis
      by (simp add: first_error_def line_ok_def split: sum.splits)
  qed
  then show ?thesis by (simp add: takeWhile_eq_all_conv)
qed

lemma chunks_of_stream:
  "length b \<le> n \<Longrightarrow> concat (chunks_read (chunks_of n b)) = b \<and> reads_end (chunks_of n b) = None"
proof (induction n arbitrary: b)
  case 0
  then show ?case by simp
next
  case (Suc n)
  show ?case
  proof (cases "b = []")
    case True
    then show ?thesis by simp
  next
    case False
    then have "length (drop 64 b) \<le> n" using Suc.prems by (cases b) auto
    from Suc.IH [OF this] False show ?thesis by simp
  qed
qed

lemma complete_lines_line:
  "CHR 0x0A \<notin> set l \<Longrightarrow> complete_lines (l @ CHR 0x0A # rest) = l # complete_lines rest"
  by (subst complete_lines.simps) (simp add: takeWhile_append1 dropWhile_append3 takeWhile_tail dropWhile_append)

lemma complete_lines_Nil: "complete_lines [] = []"
  by (subst complete_lines.simps) simp

lemma example_lines_no_newline:
  "CHR 0x0A \<notin> set line_comment" "CHR 0x0A \<notin> set line_submission"
  "CHR 0x0A \<notin> set line_low_score" "CHR 0x0A \<notin> set line_not_json"
  "CHR 0x0A \<notin> set line_not_utf8"
  by (simp_all add: line_comment_def line_submission_def line_low_score_def line_not_json_def
        line_not_utf8_def)

lemma example_world_files:
  "isfile (example_world c) ''in.zst''"
  "input_seen (example_world c) ''in.zst'' ''out.jsonl'' = c"
  "stream_read example_library (example_world c) ''in.zst'' ''out.jsonl'' = c"
  "reads_end (stream_reads example_library c) = None"
  using chunks_of_stream [of c "length c"]
  by (simp_all add: isfile_def example_world_def input_seen_def stream_read_def
        example_library_def can_open_def)

lemma example_world_can_open: "can_open (example_world c) p q"
  by (simp add: can_open_def example_world_def)

text \<open>
  Claim C6. When the input path is not an existing file, the function prints the error
  message and returns: nothing else is printed, no file is created or changed, and the
  script, called with these two paths, ends with exit status 0.
\<close>

theorem missing_input_reports_and_returns:
  assumes "\<not> isfile w input_path"
  shows "process_pushshift_zst L w input_path output_path subreddit_filter score_threshold =
           (w\<lparr>stdout := stdout w @ [not_found_message input_path]\<rparr>, None) \<and>
         files (fst (process_pushshift_zst L w input_path output_path subreddit_filter
                       score_threshold)) = files w \<and>
         main L w [prog, input_path, output_path] =
           (w\<lparr>stdout := stdout w @ [not_found_message input_path]\<rparr>, 0)"
  using assms by (simp add: process_pushshift_zst_def main_def)

theorem missing_input_reports_and_returns_witness:
  "\<not> isfile (example_world line_comment) ''missing.zst'' \<and>
   main example_library (example_world line_comment)
        [''filter_pushshift.py'', ''missing.zst'', ''out.jsonl''] =
     ((example_world line_comment)
        \<lparr>stdout := [''Error: File '' @ [CHR 0x27] @ ''missing.zst'' @ [CHR 0x27] @ '' not found.'']\<rparr>, 0) \<and>
   files (fst (process_pushshift_zst example_library (example_world line_comment)
                 ''missing.zst'' ''out.jsonl'' (ustr ''climbharder'') 20)) ''out.jsonl'' =
     Some ''stale''"
proof -
  have h: "\<not> isfile (example_world line_comment) ''missing.zst''"
    by (simp add: isfile_def example_world_def)
  from missing_input_reports_and_returns [OF h, of example_library "''out.jsonl''"
         "ustr ''climbharder''" 20 "''filter_pushshift.py''"] h
  show ?thesis
    by (simp add: not_found_message_def) (simp add: example_world_def)
qed

text \<open>
  Claim C9. The output file holds the records of the filter-and-normalize map over the
  complete lines of the stream, in the order of the lines: of all lines when the run
  ends without an exception, and of the lines before the first one that raises
  otherwise. A run that cannot open its files ends with the exception of \<^verbatim>\<open>open\<close> and
  writes nothing.
\<close>

theorem output_preserves_input_order:
  assumes "isfile w input_path"
  shows "(can_open w input_path output_path \<longrightarrow>
          files (fst (process_pushshift_zst L w input_path output_path subreddit_filter
                        score_threshold)) output_path =
            Some (render L (emitted_records L subreddit_filter score_threshold
                    (takeWhile (line_ok L subreddit_filter score_threshold)
                       (complete_lines (stream_read L w input_path output_path)))))) \<and>
         (snd (process_pushshift_zst L w input_path output_path subreddit_filter
                 score_threshold) = None \<longrightarrow>
          files (fst (process_pushshift_zst L w input_path output_path subreddit_filter
                        score_threshold)) output_path =
            Some (render L (emitted_records L subreddit_filter score_threshold
                    (complete_lines (stream_read L w input_path output_path))))) \<and>
         (\<not> can_open w input_path output_path \<longrightarrow>
          process_pushshift_zst L w input_path output_path subreddit_filter score_threshold =
            (w, Some OSError))"
proof (cases "can_open w input_path output_path")
  case True
  then show ?thesis
    by (auto simp: process_pushshift_zst_result [OF assms True] first_error_None_takeWhile
             split: option.splits)
next
  case False
  then show ?thesis
    by (simp add: process_pushshift_zst_refused [OF assms False])
qed

theorem output_preserves_input_order_witness:
  "isfile (example_world
      (line_submission @ ''\<newline>'' @ line_low_score @ ''\<newline>'' @ line_comment @ ''\<newline>''))
     ''in.zst'' \<and>
   complete_lines (stream_read example_library
      (example_world
         (line_submission @ ''\<newline>'' @ line_low_score @ ''\<newline>'' @ line_comment @ ''\<newline>''))
      ''in.zst'' ''out.jsonl'') = [line_submission, line_low_score, line_comment] \<and>
   files (fst (process_pushshift_zst example_library
      (example_world
         (line_submission @ ''\<newline>'' @ line_low_score @ ''\<newline>'' @ line_comment @ ''\<newline>''))
      ''in.zst'' ''out.jsonl'' (ustr ''climbharder'') 20)) ''out.jsonl'' =
     Some (example_dumps \<lparr>body = ustr ''T S''\<rparr> @ ''\<newline>'' @
           example_dumps \<lparr>body = long_text\<rparr> @ ''\<newline>'')"
proof -
  let ?c = "line_submission @ ''\<newline>'' @ line_low_score @ ''\<newline>'' @ line_comment @ ''\<newline>''"
  have l: "complete_lines ?c = [line_submission, line_low_score, line_comment]"
    by (simp add: complete_lines_line example_lines_no_newline complete_lines_Nil)
  have ok: "takeWhile (line_ok example_library (ustr ''climbharder'') 20)
              [line_submission, line_low_score, line_comment] =
            [line_submission, line_low_score, line_comment]"
    by (simp add: line_ok_def process_line_examples)
  have em: "render example_library (emitted_records example_library (ustr ''climbharder'') 20
              [line_submission, line_low_score, line_comment]) =
            example_dumps \<lparr>body = ustr ''T S''\<rparr> @ ''\<newline>'' @
            example_dumps \<lparr>body = long_text\<rparr> @ ''\<newline>''"
    by (simp add: emitted_records_def map_filter_simps process_line_examples render_def)
       (simp add: example_library_def)
  from output_preserves_input_order [OF example_world_files(1) [of ?c],
         where output_path = "''out.jsonl''" and L = example_library
           and subreddit_filter = "ustr ''climbharder''" and score_threshold = 20]
       example_world_can_open [of ?c "''in.zst''" "''out.jsonl''"]
  have "files (fst (process_pushshift_zst example_library (example_world ?c)
          ''in.zst'' ''out.jsonl'' (ustr ''climbharder'') 20)) ''out.jsonl'' =
        Some (render example_library (emitted_records example_library (ustr ''climbharder'') 20
          (takeWhile (line_ok example_library (ustr ''climbharder'') 20)
            (complete_lines (stream_read example_library (example_world ?c)
               ''in.zst'' ''out.jsonl'')))))"
    by blast
  then show ?thesis
    by (simp only: example_world_files l ok em)
qed

lemma process_line_cong:
  "loads L2 = loads L1 \<Longrightarrow> process_line L2 sf st = process_line L1 sf st"
  by (rule ext) (simp add: process_line_def)

lemma run_parts_cong:
  assumes "loads L2 = loads L1" "dumps L2 = dumps L1"
  shows "line_ok L2 sf st = line_ok L1 sf st"
    and "first_error L2 sf st = first_error L1 sf st"
    and "emitted_records L2 sf st = emitted_records L1 sf st"
    and "render L2 = render L1"
proof -
  note p = process_line_cong [OF assms(1), of sf st]
  show ok: "line_ok L2 sf st = line_ok L1 sf st"
    by (rule ext) (simp add: line_ok_def p)
  show "first_error L2 sf st = first_error L1 sf st"
    by (rule ext) (simp add: first_error_def p ok cong: list.case_cong)
  show "emitted_records L2 sf st = emitted_records L1 sf st"
    by (rule ext) (simp add: emitted_records_def p)
  show "render L2 = render L1"
    by (rule ext) (simp add: render_def assms(2))
qed

lemma input_seen_cong:
  "files w2 input_path = files w1 input_path \<Longrightarrow>
     input_seen w2 input_path output_path = input_seen w1 input_path output_path"
  by (simp add: input_seen_def)

text \<open>
  Claim C8. Two runs with the same target subreddit and threshold on input files of
  the same content, in file systems that agree on whether the two files can be opened,
  end the same way and, when the files can be opened, leave the same bytes in the
  output file, whatever else differs between the two file systems (an older output
  file, what was printed) and however the reader cuts the same decompressed stream into
  chunks. When the files cannot be opened, neither run changes its file system.
\<close>

theorem same_input_same_output:
  assumes "isfile w1 input_path"
    and "files w2 input_path = files w1 input_path"
    and "can_open w2 input_path output_path = can_open w1 input_path output_path"
    and "loads L2 = loads L1" and "dumps L2 = dumps L1"
    and "concat (chunks_read (stream_reads L2 (input_seen w1 input_path output_path))) =
         concat (chunks_read (stream_reads L1 (input_seen w1 input_path output_path)))"
    and "reads_end (stream_reads L2 (input_seen w1 input_path output_path)) =
         reads_end (stream_reads L1 (input_seen w1 input_path output_path))"
  shows "(can_open w1 input_path output_path \<longrightarrow>
          files (fst (process_pushshift_zst L2 w2 input_path output_path subreddit_filter
                        score_threshold)) output_path =
          files (fst (process_pushshift_zst L1 w1 input_path output_path subreddit_filter
                        score_threshold)) output_path) \<and>
         snd (process_pushshift_zst L2 w2 input_path output_path subreddit_filter
                score_threshold) =
         snd (process_pushshift_zst L1 w1 input_path output_path subreddit_filter
                score_threshold) \<and>
         (\<not> can_open w1 input_path output_path \<longrightarrow>
          fst (process_pushshift_zst L2 w2 input_path output_path subreddit_filter
                 score_threshold) = w2 \<and>
          fst (process_pushshift_zst L1 w1 input_path output_path subreddit_filter
                 score_threshold) = w1)"
proof (cases "can_open w1 input_path output_path")
  case True
  with assms(3) have o2: "can_open w2 input_path output_path" by simp
  from assms(1,2) have f2: "isfile w2 input_path" by (simp add: isfile_def)
  have s: "stream_read L2 w2 input_path output_path = stream_read L1 w1 input_path output_path"
    using assms(6) True o2 by (simp add: stream_read_def input_seen_cong [OF assms(2)])
  show ?thesis
    by (simp add: process_pushshift_zst_result [OF assms(1) True]
          process_pushshift_zst_result [OF f2 o2]
          s run_parts_cong [OF assms(4,5)] input_seen_cong [OF assms(2)] assms(7) True
          cong: option.case_cong)
next
  case False
  with assms(3) have o2: "\<not> can_open w2 input_path output_path" by simp
  from assms(1,2) have f2: "isfile w2 input_path" by (simp add: isfile_def)
  show ?thesis
    by (simp add: process_pushshift_zst_refused [OF assms(1) False]
          process_pushshift_zst_refused [OF f2 o2] False)
qed

theorem same_input_same_output_witness:
  "isfile (example_world (line_comment @ ''\<newline>'' @ line_not_json @ ''\<newline>'')) ''in.zst'' \<and>
   files \<lparr>files = [''in.zst'' \<mapsto> line_comment @ ''\<newline>'' @ line_not_json @ ''\<newline>''],
          read_denied = {}, write_denied = {}, stdout = [''printed before'']\<rparr> ''in.zst'' =
     files (example_world (line_comment @ ''\<newline>'' @ line_not_json @ ''\<newline>'')) ''in.zst'' \<and>
   can_open (example_world (line_comment @ ''\<newline>'' @ line_not_json @ ''\<newline>''))
     ''in.zst'' ''out.jsonl'' \<and>
   files (fst (process_pushshift_zst single_chunk_library
      \<lparr>files = [''in.zst'' \<mapsto> line_comment @ ''\<newline>'' @ line_not_json @ ''\<newline>''],
        read_denied = {}, write_denied = {}, stdout = [''printed before'']\<rparr>
      ''in.zst'' ''out.jsonl'' (ustr ''climbharder'') 20)) ''out.jsonl'' =
   files (fst (process_pushshift_zst example_library
      (example_world (line_comment @ ''\<newline>'' @ line_not_json @ ''\<newline>''))
      ''in.zst'' ''out.jsonl'' (ustr ''climbharder'') 20)) ''out.jsonl'' \<and>
   snd (process_pushshift_zst single_chunk_library
      \<lparr>files = [''in.zst'' \<mapsto> line_comment @ ''\<newline>'' @ line_not_json @ ''\<newline>''],
        read_denied = {}, write_denied = {}, stdout = [''printed before'']\<rparr>
      ''in.zst'' ''out.jsonl'' (ustr ''climbharder'') 20) =
   snd (process_pushshift_zst example_library
      (example_world (line_comment @ ''\<newline>'' @ line_not_json @ ''\<newline>''))
      ''in.zst'' ''out.jsonl'' (ustr ''climbharder'') 20)"
proof -
  let ?c = "line_comment @ ''\<newline>'' @ line_not_json @ ''\<newline>''"
  let ?w2 = "\<lparr>files = [''in.zst'' \<mapsto> ?c], read_denied = {}, write_denied = {},
              stdout = [''printed before'']\<rparr>"
  have a: "files ?w2 ''in.zst'' = files (example_world ?c) ''in.zst''"
    by (simp add: example_world_def)
  have o: "can_open (example_world ?c) ''in.zst'' ''out.jsonl''"
    by (rule example_world_can_open)
  have o2: "can_open ?w2 ''in.zst'' ''out.jsonl'' = can_open (example_world ?c) ''in.zst'' ''out.jsonl''"
    by (simp add: can_open_def example_world_def)
  have b: "loads single_chunk_library = loads example_library"
    "dumps single_chunk_library = dumps example_library"
    by (simp_all add: single_chunk_library_def example_library_def)
  have c: "concat (chunks_read (stream_reads single_chunk_library
                (input_seen (example_world ?c) ''in.zst'' ''out.jsonl''))) =
           concat (chunks_read (stream_reads example_library
                (input_seen (example_world ?c) ''in.zst'' ''out.jsonl'')))"
    using chunks_of_stream [of ?c "length ?c"]
    by (simp add: single_chunk_library_def example_library_def example_world_files(2))
  have d: "reads_end (stream_reads single_chunk_library
                (input_seen (example_world ?c) ''in.zst'' ''out.jsonl'')) =
           reads_end (stream_reads example_library
                (input_seen (example_world ?c) ''in.zst'' ''out.jsonl''))"
    by (simp add: example_world_files(2,4)) (simp add: single_chunk_library_def)
  from same_input_same_output [OF example_world_files(1) [of ?c] a o2 b c d,
         where subreddit_filter = "ustr ''climbharder''" and score_threshold = 20]
       example_world_files(1) [of ?c] a o
  show ?thesis by blast
qed





section \<open>Lines that cannot be parsed\<close>

lemma process_line_loads_raises:
  "bytes_strip line \<noteq> [] \<Longrightarrow> loads L line = Inl e \<Longrightarrow>
     process_line L sf st line = (if e = JSONDecodeError then Inr None else Inl e)"
  by (simp add: process_line_def)

lemma process_line_not_object:
  "bytes_strip line \<noteq> [] \<Longrightarrow> loads L line = Inr v \<Longrightarrow> \<forall>d. v \<noteq> JDict d \<Longrightarrow>
     process_line L sf st line = Inl AttributeError"
  by (cases v) (simp_all add: process_line_def filter_post_def)

lemma skipped_line_leaves_output:
  "process_line L sf st line = Inr None \<Longrightarrow>
     write_lines L sf st out (pre @ line # post) = write_lines L sf st out (pre @ post)"
  by (induction pre arbitrary: out) (auto split: sum.splits option.splits)

lemma raising_line_ends_loop:
  assumes "\<forall>l \<in> set pre. line_ok L sf st l" and "process_line L sf st line = Inl e"
  shows "takeWhile (line_ok L sf st) (pre @ line # post) = pre"
    and "first_error L sf st (pre @ line # post) = Some e"
proof -
  from assms(2) have n: "\<not> line_ok L sf st line" by (simp add: line_ok_def)
  with assms(1) show "takeWhile (line_ok L sf st) (pre @ line # post) = pre"
    by (simp add: takeWhile_append2)
  from assms(1) have "dropWhile (line_ok L sf st) (pre @ line # post) =
      dropWhile (line_ok L sf st) (line # post)"
    by (simp add: dropWhile_append2)
  with n assms(2) show "first_error L sf st (pre @ line # post) = Some e"
    by (simp add: first_error_def)
qed

text \<open>
  Claim C1, where the code departs from it. A line on which \<^verbatim>\<open>json.loads\<close> raises an
  exception other than \<^verbatim>\<open>JSONDecodeError\<close> (bytes that are not UTF-8 give a
  \<^verbatim>\<open>UnicodeDecodeError\<close>) is not skipped: the exception leaves the function, the output
  file holds only the records of the lines before it, and the lines after it are never
  examined.
\<close>

theorem undecodable_line_aborts_run:
  assumes "isfile w input_path"
    and "complete_lines (stream_read L w input_path output_path) = pre @ line # post"
    and "\<forall>l \<in> set pre. line_ok L subreddit_filter score_threshold l"
    and "bytes_strip line \<noteq> []"
    and "loads L line = Inl e" and "e \<noteq> JSONDecodeError"
  shows "process_pushshift_zst L w input_path output_path subreddit_filter score_threshold =
           (w\<lparr>files := (files w)(output_path \<mapsto>
                render L (emitted_records L subreddit_filter score_threshold pre))\<rparr>,
            Some e)"
proof -
  from assms(4,5,6) have p: "process_line L subreddit_filter score_threshold line = Inl e"
    by (simp add: process_line_loads_raises)
  have o: "can_open w input_path output_path"
  proof (rule ccontr)
    assume "\<not> can_open w input_path output_path"
    then have "complete_lines (stream_read L w input_path output_path) = []"
      by (simp add: stream_read_refused complete_lines_Nil)
    with assms(2) show False by simp
  qed
  show ?thesis
    by (simp add: process_pushshift_zst_result [OF assms(1) o] assms(2)
          raising_line_ends_loop [OF assms(3) p])
qed

theorem undecodable_line_aborts_run_witness:
  "isfile (example_world (line_comment @ ''\<newline>'' @ line_not_utf8 @ ''\<newline>'' @
                           line_submission @ ''\<newline>'')) ''in.zst'' \<and>
   loads example_library line_not_utf8 = Inl UnicodeDecodeError \<and>
   process_pushshift_zst example_library
     (example_world (line_comment @ ''\<newline>'' @ line_not_utf8 @ ''\<newline>'' @
                     line_submission @ ''\<newline>''))
     ''in.zst'' ''out.jsonl'' (ustr ''climbharder'') 20 =
     ((example_world (line_comment @ ''\<newline>'' @ line_not_utf8 @ ''\<newline>'' @
                      line_submission @ ''\<newline>''))
        \<lparr>files := (files (example_world (line_comment @ ''\<newline>'' @ line_not_utf8 @ ''\<newline>'' @
                      line_submission @ ''\<newline>'')))
                   (''out.jsonl'' \<mapsto> example_dumps \<lparr>body = long_text\<rparr> @ ''\<newline>'')\<rparr>,
      Some UnicodeDecodeError)"
proof -
  let ?c = "line_comment @ ''\<newline>'' @ line_not_utf8 @ ''\<newline>'' @ line_submission @ ''\<newline>''"
  have l: "complete_lines (stream_read example_library (example_world ?c) ''in.zst'' ''out.jsonl'') =
             [line_comment] @ line_not_utf8 # [line_submission]"
    by (simp add: example_world_files complete_lines_line example_lines_no_newline
          complete_lines_Nil)
  have ok: "\<forall>l \<in> set [line_comment]. line_ok example_library (ustr ''climbharder'') 20 l"
    by (simp add: line_ok_def process_line_examples)
  have e: "loads example_library line_not_utf8 = Inl UnicodeDecodeError"
    by (simp add: example_library_def example_loads_def example_lines_distinct)
  have r: "render example_library
             (emitted_records example_library (ustr ''climbharder'') 20 [line_comment]) =
           example_dumps \<lparr>body = long_text\<rparr> @ ''\<newline>''"
    by (simp add: emitted_records_def map_filter_simps process_line_examples render_def)
       (simp add: example_library_def)
  from undecodable_line_aborts_run [OF example_world_files(1) [of ?c] l ok
         example_lines_not_blank(5) e]
       example_world_files(1) [of ?c] e r
  show ?thesis by simp
qed

end
